theory Spec2Isabelle
  imports Main
begin

section \<open>Strings\<close>

text \<open>
  A JavaScript string is modelled as a \<^typ>\<open>string\<close>: the list of its code units, each
  below 256. The operations below are the ones the source applies to paths.
\<close>

definition startsWith :: "string \<Rightarrow> string \<Rightarrow> bool" where
  "startsWith s p = (take (length p) s = p)"

definition endsWith :: "string \<Rightarrow> string \<Rightarrow> bool" where
  "endsWith s p = (length p \<le> length s \<and> drop (length s - length p) s = p)"

text \<open>
  \<open>String.prototype.trim\<close> removes white space and line terminators from both ends. Of the
  code units below 256 these are TAB, LF, VT, FF, CR, SPACE and NBSP.
\<close>

definition isWhiteSpace :: "char \<Rightarrow> bool" where
  "isWhiteSpace c = (c \<in> {CHR 0x09, CHR 0x0A, CHR 0x0B, CHR 0x0C, CHR 0x0D, CHR 0x20, CHR 0xA0})"

definition trim :: "string \<Rightarrow> string" where
  "trim s = rev (dropWhile isWhiteSpace (rev (dropWhile isWhiteSpace s)))"

text \<open>
  \<open>s.replace(/\/|\\+/g, '/')\<close>: every forward slash is replaced by a forward slash, and every
  maximal run of backslashes by one forward slash. The flag says that the previous code unit
  belonged to a run of backslashes that has been replaced already.
\<close>

fun replaceSlashesFrom :: "bool \<Rightarrow> string \<Rightarrow> string" where
  "replaceSlashesFrom inRun [] = []"
| "replaceSlashesFrom inRun (c # cs) =
     (if c = CHR 0x5C
      then (if inRun then replaceSlashesFrom True cs else CHR ''/'' # replaceSlashesFrom True cs)
      else c # replaceSlashesFrom False cs)"

definition replaceSlashes :: "string \<Rightarrow> string" where
  "replaceSlashes s = replaceSlashesFrom False s"

section \<open>The path library\<close>

text \<open>
  Modelled from the spec: the source calls \<open>path.normalize\<close> of the Node.js standard library,
  which is not part of the repository; the spec asks for platform-neutral canonicalization of
  \<open>.\<close>, \<open>..\<close> and redundant separators. The model is the POSIX variant: the path is cut at
  forward slashes, empty and \<open>.\<close> segments are dropped, a \<open>..\<close> segment removes the segment
  before it (and is kept at the front of a relative path, dropped at the root of an absolute
  one), and a leading and a trailing separator are kept. The empty path becomes \<open>.\<close>.
\<close>

fun splitSegments :: "string \<Rightarrow> string list" where
  "splitSegments [] = [[]]"
| "splitSegments (c # cs) =
     (if c = CHR ''/'' then [] # splitSegments cs
      else (case splitSegments cs of
              [] \<Rightarrow> [[c]]
            | seg # segs \<Rightarrow> (c # seg) # segs))"

fun joinSegments :: "string list \<Rightarrow> string" where
  "joinSegments [] = []"
| "joinSegments [seg] = seg"
| "joinSegments (seg # segs) = seg @ CHR ''/'' # joinSegments segs"

text \<open>
  \<open>normalizeString\<close> of the library walks the segments with the result so far; here the result
  is a stack of segments, the last one on top.
\<close>

fun normalizeString :: "bool \<Rightarrow> string list \<Rightarrow> string list \<Rightarrow> string list" where
  "normalizeString allowAboveRoot res [] = rev res"
| "normalizeString allowAboveRoot res (seg # segs) =
     (if seg = [] \<or> seg = ''.'' then normalizeString allowAboveRoot res segs
      else if seg = ''..'' then
        (case res of
           [] \<Rightarrow> normalizeString allowAboveRoot (if allowAboveRoot then [seg] else []) segs
         | lastSegment # earlier \<Rightarrow>
             if lastSegment \<noteq> ''..'' then normalizeString allowAboveRoot earlier segs
             else normalizeString allowAboveRoot (if allowAboveRoot then seg # res else res) segs)
      else normalizeString allowAboveRoot (seg # res) segs)"

definition path_normalize :: "string \<Rightarrow> string" where
  "path_normalize p =
     (if p = [] then ''.''
      else
        let isAbsolute = (hd p = CHR ''/'');
            trailingSeparator = (last p = CHR ''/'');
            body = joinSegments (normalizeString (\<not> isAbsolute) [] (splitSegments p))
        in if body = [] then
             (if isAbsolute then ''/'' else if trailingSeparator then ''./'' else ''.'')
           else (if isAbsolute then ''/'' else []) @ body
                @ (if trailingSeparator then ''/'' else []))"

section \<open>Path normalization\<close>

record IAwsSimpleStorageServiceNormalizedPath =
  directory :: bool
  path :: string

text \<open>
  \<open>normalizePath(objectPath, directory?)\<close>. The optional flag is \<open>None\<close> when the caller
  leaves it out. The five bindings are the five statements of the source.
\<close>

definition normalizePath :: "string \<Rightarrow> bool option \<Rightarrow> IAwsSimpleStorageServiceNormalizedPath" where
  "normalizePath objectPath dir =
     (let response0 = \<lparr>directory = (case dir of None \<Rightarrow> False | Some b \<Rightarrow> b),
                       path = replaceSlashes objectPath\<rparr>;
          response1 =
            (if (dir = Some True \<or> endsWith (path response0) ''/'' \<or> endsWith objectPath ''/'')
                \<and> \<not> directory response0
             then response0\<lparr>directory := True\<rparr> else response0);
          response2 = response1\<lparr>path := replaceSlashes (path_normalize (trim (path response1)))\<rparr>;
          response3 =
            (if startsWith (path response2) ''/''
             then response2\<lparr>path := drop 1 (path response2)\<rparr> else response2);
          response4 =
            (if (dir = Some True \<or> directory response3 \<or> endsWith objectPath ''/'')
                \<and> \<not> endsWith (path response3) ''/''
             then response3\<lparr>path := replaceSlashes (path_normalize (path response3 @ ''/''))\<rparr>
             else response3)
      in response4)"

section \<open>Hidden names\<close>

definition AwsSimpleStorageServiceHiddenPrefix :: string where
  "AwsSimpleStorageServiceHiddenPrefix = ''_.''"

definition generateHiddenName :: "string \<Rightarrow> string" where
  "generateHiddenName objectName =
     (if startsWith objectName AwsSimpleStorageServiceHiddenPrefix
      then AwsSimpleStorageServiceHiddenPrefix @ objectName
      else objectName)"

section \<open>The object store client\<close>

text \<open>
  The configuration of the library (\<open>IAwsSimpleStorageServiceConfiguration\<close>). The library keeps
  it in a static member, set by \<open>configure\<close>; every operation below receives it as a parameter,
  so the lazy call of \<open>configure\<close> on first use is taken as done.
\<close>

record IAwsSimpleStorageServiceConfiguration =
  accessKeyId :: string
  bucket :: string
  keyManagementServiceKeyId :: "string option"
  region :: string
  secretAccessKey :: string
  userAgent :: "string option"

text \<open>
  An \<open>Error\<close> object: its \<open>name\<close> and its \<open>message\<close>. \<open>new Error(m)\<close> has the name \<open>Error\<close>; the
  errors of the store carry the name the store gives them (\<open>NotFound\<close>, \<open>NoSuchKey\<close>, ...).
\<close>

datatype error = Error (name: string) (message: string)

text \<open>
  A JavaScript \<open>number\<close> is a double: not-a-number, an infinity, the negative zero, or a
  finite value. \<open>Finite m e\<close> is the value \<open>m\<close> times 2 to the power \<open>e\<close>, so \<open>Finite 120 0\<close> is
  120 and \<open>Finite 1 (- 1)\<close> is one half; with \<open>m = 0\<close> it is the positive zero.
\<close>

datatype number = NaN | PositiveInfinity | NegativeInfinity | NegativeZero | Finite int int

fun isZero :: "number \<Rightarrow> bool" where
  "isZero NegativeZero = True"
| "isZero (Finite m e) = (m = 0)"
| "isZero n = False"

text \<open>
  A template literal is the sequence of its pieces: the characters written in it and the
  values substituted into it. How the runtime prints a substituted number is not part of the
  repository, so the number itself is kept: \<open>`range=0-${end}`\<close> is
  \<open>[Characters ''range=0-'', Substitution end]\<close>.
\<close>

datatype templatePart = Characters string | Substitution number

type_synonym template = "templatePart list"

text \<open>
  The commands the source sends, with the inputs it fills in.
  \<^item> \<open>GetObjectCommand Bucket Key Range\<close>: the range is the template literal the source
    builds, or \<open>undefined\<close>
  \<^item> \<open>PutObjectCommand Bucket Key Body SSEKMSKeyId\<close>: the ACL is always \<open>private\<close>, and
    \<open>ServerSideEncryption\<close> is \<open>aws:kms\<close> exactly when the key id is given
  \<^item> \<open>DeleteObjectCommand Bucket Key\<close>
  \<^item> \<open>DeleteObjectsCommand Bucket Keys\<close>: the keys of \<open>Delete.Objects\<close>
  \<^item> \<open>HeadObjectCommand Bucket Key\<close>
  \<^item> \<open>ListObjectsV2Command Bucket ContinuationToken Delimiter Prefix\<close>
\<close>

datatype command =
    GetObjectCommand string string "template option"
  | PutObjectCommand string string "string option" "string option"
  | DeleteObjectCommand string string
  | DeleteObjectsCommand string "string list"
  | HeadObjectCommand string string
  | ListObjectsV2Command string "string option" "string option" string

text \<open>
  The fields of \<open>ListObjectsV2CommandOutput\<close> the source reads, and \<open>NextContinuationToken\<close>,
  which the store sets beside them. \<open>Contents\<close> holds the \<open>Key\<close> of each object and
  \<open>CommonPrefixes\<close> the \<open>Prefix\<close> of each entry; every field is optional in the SDK's type.
\<close>

record ListObjectsV2CommandOutput =
  Contents :: "string option list option"
  CommonPrefixes :: "string option list option"
  IsTruncated :: "bool option"
  ContinuationToken :: "string option"
  NextContinuationToken :: "string option"

text \<open>
  The outputs: \<open>GetObjectCommandOutput Body\<close>, \<open>PutObjectCommandOutput ETag\<close>, the listing,
  and three outputs of which the source reads no field.
\<close>

datatype commandOutput =
    GetObjectCommandOutput "string option"
  | PutObjectCommandOutput string
  | DeleteObjectCommandOutput
  | DeleteObjectsCommandOutput
  | HeadObjectCommandOutput
  | ListObjectsV2Output ListObjectsV2CommandOutput

text \<open>Reading a field of an output that does not have it gives \<open>undefined\<close>.\<close>

definition Body :: "commandOutput \<Rightarrow> string option" where
  "Body out = (case out of GetObjectCommandOutput b \<Rightarrow> b | _ \<Rightarrow> None)"

definition listing :: "commandOutput \<Rightarrow> ListObjectsV2CommandOutput" where
  "listing out =
     (case out of
        ListObjectsV2Output l \<Rightarrow> l
      | _ \<Rightarrow> \<lparr>Contents = None, CommonPrefixes = None, IsTruncated = None,
               ContinuationToken = None, NextContinuationToken = None\<rparr>)"

text \<open>
  The store client (\<open>client.send\<close>) is a parameter: it answers a command in a state of the
  store with an output or an error, and a new state.

  An asynchronous operation takes the state of the store and returns \<open>Some\<close> of its outcome
  (\<open>Inl\<close> the error it throws, \<open>Inr\<close> the value it resolves to) with the new state, or \<open>None\<close>
  when it does not return. The recursive operations take a bound on the depth of their
  recursion as first argument and do not return when it is used up.
\<close>

type_synonym 's client = "command \<Rightarrow> 's \<Rightarrow> (error + commandOutput) \<times> 's"

type_synonym ('s, 'a) async = "'s \<Rightarrow> ((error + 'a) \<times> 's) option"

definition resolve :: "'a \<Rightarrow> ('s, 'a) async" where
  "resolve a s = Some (Inr a, s)"

definition throw :: "error \<Rightarrow> ('s, 'a) async" where
  "throw e s = Some (Inl e, s)"

definition await :: "('s, 'a) async \<Rightarrow> ('a \<Rightarrow> ('s, 'b) async) \<Rightarrow> ('s, 'b) async" where
  "await m f s =
     (case m s of
        None \<Rightarrow> None
      | Some (Inl e, s1) \<Rightarrow> Some (Inl e, s1)
      | Some (Inr a, s1) \<Rightarrow> f a s1)"

definition tryCatch :: "('s, 'a) async \<Rightarrow> (error \<Rightarrow> ('s, 'a) async) \<Rightarrow> ('s, 'a) async" where
  "tryCatch m handler s =
     (case m s of
        None \<Rightarrow> None
      | Some (Inl e, s1) \<Rightarrow> handler e s1
      | Some (Inr a, s1) \<Rightarrow> Some (Inr a, s1))"

definition send :: "'s client \<Rightarrow> command \<Rightarrow> ('s, commandOutput) async" where
  "send client cmd s = Some (client cmd s)"

text \<open>A \<open>for ... of\<close> loop whose body awaits: one element after the other, until one throws.\<close>

fun forEachAsync :: "('a \<Rightarrow> ('s, 'b) async) \<Rightarrow> 'a list \<Rightarrow> ('s, 'b list) async" where
  "forEachAsync body [] = resolve []"
| "forEachAsync body (x # xs) =
     await (body x) (\<lambda>y. await (forEachAsync body xs) (\<lambda>ys. resolve (y # ys)))"

text \<open>\<open>l ?? []\<close> for an optional array, and the entries \<open>e\<close> of it with \<open>!!e\<close>.\<close>

definition orEmpty :: "'a list option \<Rightarrow> 'a list" where
  "orEmpty l = (case l of None \<Rightarrow> [] | Some xs \<Rightarrow> xs)"

definition truthyString :: "string option \<Rightarrow> bool" where
  "truthyString v = (case v of None \<Rightarrow> False | Some str \<Rightarrow> str \<noteq> [])"

definition truthyStrings :: "string option list \<Rightarrow> string list" where
  "truthyStrings l = map the (filter truthyString l)"

section \<open>Reading and writing objects\<close>

text \<open>
  An optional \<open>number\<close> argument is \<open>None\<close> when the caller leaves it out. \<open>!!n\<close> is false for
  \<open>undefined\<close>, for not-a-number and for both zeros, and true for every other number.
\<close>

definition truthyNumber :: "number option \<Rightarrow> bool" where
  "truthyNumber v = (case v of None \<Rightarrow> False | Some n \<Rightarrow> n \<noteq> NaN \<and> \<not> isZero n)"

definition getObjectAsync ::
  "'s client \<Rightarrow> IAwsSimpleStorageServiceConfiguration \<Rightarrow> string \<Rightarrow> number option
     \<Rightarrow> number option \<Rightarrow> ('s, commandOutput) async" where
  "getObjectAsync client configuration objectPath start endNumber =
     (let normalizedObjectPath = normalizePath objectPath None;
          range =
            (if truthyNumber start \<and> truthyNumber endNumber
             then Some [Characters ''range='', Substitution (the start), Characters ''-'',
                        Substitution (the endNumber)]
             else if truthyNumber start
             then Some [Characters ''range='', Substitution (the start)]
             else if truthyNumber endNumber
             then Some [Characters ''range=0-'', Substitution (the endNumber)]
             else None)
      in send client
           (GetObjectCommand (bucket configuration) (path normalizedObjectPath) range))"

text \<open>
  \<open>putObjectAsync\<close>. \<open>now\<close> is what \<open>(new Date).toISOString()\<close> gives, the content written when
  the caller passes none.
\<close>

definition putObjectAsync ::
  "'s client \<Rightarrow> IAwsSimpleStorageServiceConfiguration \<Rightarrow> string \<Rightarrow> string \<Rightarrow> string option
     \<Rightarrow> ('s, commandOutput) async" where
  "putObjectAsync client configuration now objectPath content =
     (let normalizedObjectPath = normalizePath objectPath None
      in send client
           (PutObjectCommand (bucket configuration) (path normalizedObjectPath)
              (Some (case content of None \<Rightarrow> now | Some c \<Rightarrow> c))
              (if truthyString (keyManagementServiceKeyId configuration)
               then keyManagementServiceKeyId configuration else None)))"

definition headObjectAsync ::
  "'s client \<Rightarrow> IAwsSimpleStorageServiceConfiguration \<Rightarrow> string \<Rightarrow> ('s, commandOutput) async" where
  "headObjectAsync client configuration objectPath =
     (let normalizedObjectPath = normalizePath objectPath None
      in send client (HeadObjectCommand (bucket configuration) (path normalizedObjectPath)))"

definition objectExistsAsync ::
  "'s client \<Rightarrow> IAwsSimpleStorageServiceConfiguration \<Rightarrow> string \<Rightarrow> ('s, bool) async" where
  "objectExistsAsync client configuration objectPath =
     (let normalizedObjectPath = normalizePath objectPath None
      in tryCatch
           (await (headObjectAsync client configuration (path normalizedObjectPath))
              (\<lambda>_. resolve True))
           (\<lambda>e. if name e = ''NotFound'' then resolve False else throw e))"

section \<open>Listing\<close>

fun listObjectsAsync ::
  "nat \<Rightarrow> 's client \<Rightarrow> IAwsSimpleStorageServiceConfiguration \<Rightarrow> string option \<Rightarrow> string option
     \<Rightarrow> ('s, ListObjectsV2CommandOutput) async" where
  "listObjectsAsync 0 client configuration directoryPath continuationToken = (\<lambda>s. None)"
| "listObjectsAsync (Suc fuel) client configuration directoryPath continuationToken =
     (let normalizedObjectPath =
            normalizePath (case directoryPath of None \<Rightarrow> ''/'' | Some p \<Rightarrow> p) (Some True)
      in await
           (send client
              (ListObjectsV2Command (bucket configuration) continuationToken
                 (if path normalizedObjectPath \<noteq> [] then Some ''/'' else None)
                 (path normalizedObjectPath)))
           (\<lambda>out.
              let request = listing out
              in if IsTruncated request = Some True
                 then await
                        (listObjectsAsync fuel client configuration directoryPath
                           (ContinuationToken request))
                        (\<lambda>secondRequest.
                           resolve
                             (request\<lparr>Contents :=
                                Some (orEmpty (Contents request)
                                      @ orEmpty (Contents secondRequest))\<rparr>))
                 else resolve request))"

section \<open>Deleting\<close>

text \<open>
  A parameter of type \<open>string | string[]\<close>.
\<close>

datatype paths = Single string | Multiple "string list"

text \<open>
  \<open>deleteDirectoryAsync\<close>, \<open>deleteObjectAsync\<close> and \<open>deleteObjectsAsync\<close> call each other.
  A delete resolves to the output of the store, or to \<open>null\<close>, which is \<open>None\<close>.
\<close>

function
  deleteDirectoryAsync ::
    "nat \<Rightarrow> 's client \<Rightarrow> IAwsSimpleStorageServiceConfiguration \<Rightarrow> string
       \<Rightarrow> ('s, commandOutput option) async"
  and deleteObjectAsync ::
    "nat \<Rightarrow> 's client \<Rightarrow> IAwsSimpleStorageServiceConfiguration \<Rightarrow> paths
       \<Rightarrow> ('s, commandOutput option) async"
  and deleteObjectsAsync ::
    "nat \<Rightarrow> 's client \<Rightarrow> IAwsSimpleStorageServiceConfiguration \<Rightarrow> paths
       \<Rightarrow> ('s, commandOutput option) async"
where
  "deleteDirectoryAsync 0 client configuration directoryPath = (\<lambda>s. None)"
| "deleteDirectoryAsync (Suc fuel) client configuration directoryPath =
     (let normalizedObjectPath = normalizePath directoryPath (Some True)
      in if \<not> directory normalizedObjectPath then throw (Error ''Error'' ''Path Not A Directory'')
         else await
           (listObjectsAsync fuel client configuration (Some (path normalizedObjectPath)) None)
           (\<lambda>data.
              if orEmpty (Contents data) = [] then resolve None
              else await
                (forEachAsync (\<lambda>prefix. deleteDirectoryAsync fuel client configuration prefix)
                   (truthyStrings (orEmpty (CommonPrefixes data))))
                (\<lambda>_.
                   let keysToDelete = truthyStrings (orEmpty (Contents data))
                   in await
                        (deleteObjectsAsync fuel client configuration (Multiple keysToDelete))
                        (\<lambda>_. await
                           (send client
                              (DeleteObjectCommand (bucket configuration)
                                 (path normalizedObjectPath)))
                           (\<lambda>out. resolve (Some out))))))"
| "deleteObjectAsync fuel client configuration (Multiple objectPath) =
     deleteObjectsAsync fuel client configuration (Multiple objectPath)"
| "deleteObjectAsync fuel client configuration (Single objectPath) =
     (let normalizedObjectPath = normalizePath objectPath None
      in if directory normalizedObjectPath
         then deleteDirectoryAsync fuel client configuration (path normalizedObjectPath)
         else await
           (send client
              (DeleteObjectCommand (bucket configuration) (path normalizedObjectPath)))
           (\<lambda>out. resolve (Some out)))"
| "deleteObjectsAsync fuel client configuration (Single keys) =
     (if keys = [] then resolve None
      else deleteObjectAsync fuel client configuration (Single keys))"
| "deleteObjectsAsync fuel client configuration (Multiple keys) =
     (if keys = [] then resolve None
      else await
        (send client
           (DeleteObjectsCommand (bucket configuration)
              (map (\<lambda>k. path (normalizePath k None)) keys)))
        (\<lambda>out. resolve (Some out)))"
  by pat_completeness auto
termination
  by (relation
        "inv_image (less_than <*lex*> less_than)
           (\<lambda>x. case x of
                   Inl (fuel, _) \<Rightarrow> (fuel, 0)
                 | Inr (Inl (fuel, _, _, p)) \<Rightarrow> (fuel, 1)
                 | Inr (Inr (fuel, _, _, p)) \<Rightarrow>
                     (fuel, case p of Single _ \<Rightarrow> 2 | Multiple _ \<Rightarrow> 0))")
     auto

section \<open>Existence\<close>

definition directoryExistsAsync ::
  "nat \<Rightarrow> 's client \<Rightarrow> IAwsSimpleStorageServiceConfiguration \<Rightarrow> string \<Rightarrow> ('s, bool) async" where
  "directoryExistsAsync fuel client configuration objectPath0 =
     (let objectPath1 = path (normalizePath objectPath0 (Some True));
          objectPath = (if \<not> endsWith objectPath1 ''/'' then objectPath1 @ ''/'' else objectPath1)
      in await (objectExistsAsync client configuration objectPath)
           (\<lambda>exists.
              if exists then resolve True
              else tryCatch
                (await (listObjectsAsync fuel client configuration (Some objectPath) None)
                   (\<lambda>directoryContents.
                      resolve (length (orEmpty (Contents directoryContents)) > 0
                               \<or> length (orEmpty (CommonPrefixes directoryContents)) > 0)))
                (\<lambda>e. if name e = ''NotFound'' then resolve False else throw e)))"

section \<open>Copying and moving\<close>

text \<open>
  \<open>subject.replace(pattern, replacement)\<close> with a string pattern: the first occurrence of the
  pattern is replaced, and in the replacement \<open>$$\<close> stands for a dollar sign, \<open>$&\<close> for the
  match, and \<open>$\<close> followed by a backquote or a quote for the text before or after the match.
\<close>

fun splitAtFirst :: "string \<Rightarrow> string \<Rightarrow> string \<Rightarrow> (string \<times> string) option" where
  "splitAtFirst pattern preceding [] = (if pattern = [] then Some (preceding, []) else None)"
| "splitAtFirst pattern preceding (c # cs) =
     (if startsWith (c # cs) pattern then Some (preceding, drop (length pattern) (c # cs))
      else splitAtFirst pattern (preceding @ [c]) cs)"

fun getSubstitution :: "string \<Rightarrow> string \<Rightarrow> string \<Rightarrow> string \<Rightarrow> string" where
  "getSubstitution matched preceding following (c # d # r) =
     (if c = CHR ''$'' \<and> d = CHR ''$''
      then CHR ''$'' # getSubstitution matched preceding following r
      else if c = CHR ''$'' \<and> d = CHR ''&''
      then matched @ getSubstitution matched preceding following r
      else if c = CHR ''$'' \<and> d = CHR 0x60
      then preceding @ getSubstitution matched preceding following r
      else if c = CHR ''$'' \<and> d = CHR 0x27
      then following @ getSubstitution matched preceding following r
      else c # getSubstitution matched preceding following (d # r))"
| "getSubstitution matched preceding following r = r"

definition replace :: "string \<Rightarrow> string \<Rightarrow> string \<Rightarrow> string" where
  "replace subject pattern replacement =
     (case splitAtFirst pattern [] subject of
        None \<Rightarrow> subject
      | Some (preceding, following) \<Rightarrow>
          preceding @ getSubstitution pattern preceding following replacement @ following)"

text \<open>
  \<open>copyObjectAsync\<close>. The temporary file name the source computes is never written to, so the
  \<open>finally\<close> block finds no file and does nothing.
\<close>

definition copyObjectAsync ::
  "nat \<Rightarrow> 's client \<Rightarrow> IAwsSimpleStorageServiceConfiguration \<Rightarrow> string \<Rightarrow> string \<Rightarrow> string
     \<Rightarrow> bool option \<Rightarrow> ('s, commandOutput) async" where
  "copyObjectAsync fuel client configuration now sourceObjectPath destinationObjectPath
       deleteOriginal =
     (let normalizedDestinationObjectPath = normalizePath destinationObjectPath None;
          normalizedSourceObjectPath = normalizePath sourceObjectPath None
      in await
           (getObjectAsync client configuration (path normalizedSourceObjectPath) None None)
           (\<lambda>currentObject.
              await
                (putObjectAsync client configuration now (path normalizedDestinationObjectPath)
                   (Body currentObject))
                (\<lambda>newObject.
                   if deleteOriginal = Some True
                   then await
                          (deleteObjectAsync fuel client configuration
                             (Single (path normalizedDestinationObjectPath)))
                          (\<lambda>_. resolve newObject)
                   else resolve newObject)))"

fun copyDirectoryAsync ::
  "nat \<Rightarrow> 's client \<Rightarrow> IAwsSimpleStorageServiceConfiguration \<Rightarrow> string \<Rightarrow> string \<Rightarrow> string
     \<Rightarrow> bool option \<Rightarrow> ('s, commandOutput list) async" where
  "copyDirectoryAsync 0 client configuration now sourceDirectoryPath destinationDirectoryPath
       deleteOriginal = (\<lambda>s. None)"
| "copyDirectoryAsync (Suc fuel) client configuration now sourceDirectoryPath
       destinationDirectoryPath deleteOriginal =
     (let normalizedSourceDirectoryPath = normalizePath sourceDirectoryPath (Some True);
          normalizedDestinationDirectoryPath = normalizePath destinationDirectoryPath (Some True)
      in await
           (directoryExistsAsync fuel client configuration (path normalizedSourceDirectoryPath))
           (\<lambda>exists.
              if \<not> exists then throw (Error ''Error'' ''Object Directory Not Found'')
              else await
                (listObjectsAsync fuel client configuration
                   (Some (path normalizedSourceDirectoryPath)) None)
                (\<lambda>directory.
                   await
                     (forEachAsync
                        (\<lambda>key.
                           copyObjectAsync fuel client configuration now key
                             (replace key (path normalizedSourceDirectoryPath)
                                (path normalizedDestinationDirectoryPath))
                             deleteOriginal)
                        (truthyStrings (orEmpty (Contents directory))))
                     (\<lambda>copied.
                        await
                          (forEachAsync
                             (\<lambda>prefix.
                                copyDirectoryAsync fuel client configuration now prefix
                                  (replace prefix (path normalizedSourceDirectoryPath)
                                     (path normalizedDestinationDirectoryPath))
                                  deleteOriginal)
                             (truthyStrings (orEmpty (CommonPrefixes directory))))
                          (\<lambda>nested.
                             let response = copied @ concat nested
                             in if deleteOriginal = Some True
                                then await
                                  (directoryExistsAsync fuel client configuration
                                     (path normalizedSourceDirectoryPath))
                                  (\<lambda>still.
                                     if still
                                     then await
                                       (deleteDirectoryAsync fuel client configuration
                                          (path normalizedSourceDirectoryPath))
                                       (\<lambda>_. resolve response)
                                     else resolve response)
                                else resolve response)))))"

definition moveDirectoryAsync ::
  "nat \<Rightarrow> 's client \<Rightarrow> IAwsSimpleStorageServiceConfiguration \<Rightarrow> string \<Rightarrow> string \<Rightarrow> string
     \<Rightarrow> ('s, commandOutput list) async" where
  "moveDirectoryAsync fuel client configuration now sourceDirectoryPath destinationDirectoryPath =
     copyDirectoryAsync fuel client configuration now sourceDirectoryPath
       destinationDirectoryPath (Some True)"

definition moveObjectAsync ::
  "nat \<Rightarrow> 's client \<Rightarrow> IAwsSimpleStorageServiceConfiguration \<Rightarrow> string \<Rightarrow> string \<Rightarrow> string
     \<Rightarrow> ('s, unit) async" where
  "moveObjectAsync fuel client configuration now sourceObjectPath destinationObjectPath =
     await
       (copyObjectAsync fuel client configuration now sourceObjectPath destinationObjectPath
          (Some True))
       (\<lambda>_. resolve ())"

section \<open>Store clients\<close>

text \<open>
  A client that records every command it is sent, in order, and then passes it on.
\<close>

definition logged :: "'s client \<Rightarrow> (command list \<times> 's) client" where
  "logged client cmd = (\<lambda>(log, s). case client cmd s of (r, s1) \<Rightarrow> (r, (log @ [cmd], s1)))"

text \<open>
  Modelled from the spec: the object store is an external collaborator (the S3 client of the
  AWS SDK, not part of the repository), a flat map from keys to bodies with the primitives
  get, put, delete, deleteMany, head and list. The store is an association list. A get or a head of a missing key fails (\<open>NoSuchKey\<close>, \<open>NotFound\<close>); a delete
  succeeds whether the key exists or not. A listing returns the keys that start with the
  prefix; with a delimiter, a key whose remainder after the prefix contains the delimiter is
  reported by its common prefix, up to and including the delimiter, and not as an object. The
  whole listing is one page, and an empty list is left out of the output. The range of a get
  is not interpreted.
\<close>

type_synonym store = "(string \<times> string) list"

definition removeKey :: "string \<Rightarrow> store \<Rightarrow> store" where
  "removeKey k st = filter (\<lambda>kv. fst kv \<noteq> k) st"

definition storeKey :: "string \<Rightarrow> string \<Rightarrow> store \<Rightarrow> store" where
  "storeKey k v st = (if k \<in> fst ` set st then map (\<lambda>kv. if fst kv = k then (k, v) else kv) st
                      else st @ [(k, v)])"

definition commonPrefixOf :: "string \<Rightarrow> string option \<Rightarrow> string \<Rightarrow> string option" where
  "commonPrefixOf prefix delimiter k =
     (case delimiter of
        None \<Rightarrow> None
      | Some d \<Rightarrow>
          (case splitAtFirst d [] (drop (length prefix) k) of
             None \<Rightarrow> None
           | Some (preceding, following) \<Rightarrow> Some (prefix @ preceding @ d)))"

definition nonEmptyList :: "'a list \<Rightarrow> 'a list option" where
  "nonEmptyList xs = (if xs = [] then None else Some xs)"

definition listStore :: "store \<Rightarrow> string option \<Rightarrow> string option \<Rightarrow> string
     \<Rightarrow> ListObjectsV2CommandOutput" where
  "listStore st token delimiter prefix =
     (let keys = filter (\<lambda>k. startsWith k prefix) (map fst st)
      in \<lparr>Contents =
            nonEmptyList (map Some (filter (\<lambda>k. commonPrefixOf prefix delimiter k = None) keys)),
          CommonPrefixes =
            nonEmptyList (map Some (remdups (List.map_filter (commonPrefixOf prefix delimiter) keys))),
          IsTruncated = Some False,
          ContinuationToken = token,
          NextContinuationToken = None\<rparr>)"

fun storeClient :: "store client" where
  "storeClient (GetObjectCommand b k byteRange) st =
     (case map_of st k of
        None \<Rightarrow> (Inl (Error ''NoSuchKey'' ''The specified key does not exist.''), st)
      | Some body \<Rightarrow> (Inr (GetObjectCommandOutput (Some body)), st))"
| "storeClient (PutObjectCommand b k body sse) st =
     (Inr (PutObjectCommandOutput k), storeKey k (case body of None \<Rightarrow> [] | Some v \<Rightarrow> v) st)"
| "storeClient (DeleteObjectCommand b k) st = (Inr DeleteObjectCommandOutput, removeKey k st)"
| "storeClient (DeleteObjectsCommand b ks) st =
     (Inr DeleteObjectsCommandOutput, fold removeKey ks st)"
| "storeClient (HeadObjectCommand b k) st =
     (case map_of st k of
        None \<Rightarrow> (Inl (Error ''NotFound'' ''NotFound''), st)
      | Some body \<Rightarrow> (Inr HeadObjectCommandOutput, st))"
| "storeClient (ListObjectsV2Command b token delimiter prefix) st =
     (Inr (ListObjectsV2Output (listStore st token delimiter prefix)), st)"

text \<open>
  Modelled from the spec: a store whose listing spans several pages (simulated truncation).
  The pages follow the interface of the SDK's \<open>ListObjectsV2\<close>, which is not part of the
  repository: a page echoes the token of its request in \<open>ContinuationToken\<close>, is marked
  truncated when another page follows, and then names that page in \<open>NextContinuationToken\<close>. The token of page \<open>i\<close> is \<open>i\<close> plus signs; a request without a
  token reads page 0. The store has no state of its own.
\<close>

definition pageOf :: "string list list \<Rightarrow> string option \<Rightarrow> ListObjectsV2CommandOutput" where
  "pageOf pages token =
     (let i = (case token of None \<Rightarrow> 0 | Some t \<Rightarrow> length t)
      in \<lparr>Contents = (if i < length pages then Some (map Some (pages ! i)) else None),
          CommonPrefixes = None,
          IsTruncated = Some (Suc i < length pages),
          ContinuationToken = token,
          NextContinuationToken =
            (if Suc i < length pages then Some (replicate (Suc i) CHR ''+'') else None)\<rparr>)"

fun pagedClient :: "string list list \<Rightarrow> unit client" where
  "pagedClient pages (ListObjectsV2Command b token delimiter prefix) u =
     (Inr (ListObjectsV2Output (pageOf pages token)), u)"
| "pagedClient pages cmd u = (Inl (Error ''NotImplemented'' []), u)"

text \<open>
  A store that answers the commands it is sent with a fixed sequence of answers, whatever the
  commands are: the state is the answers still to give.
\<close>

fun scriptedClient :: "(error + commandOutput) list client" where
  "scriptedClient cmd [] = (Inl (Error ''NotImplemented'' []), [])"
| "scriptedClient cmd (answer # answers) = (answer, answers)"

section \<open>Observing an operation\<close>

text \<open>
  What a command deletes, and whether a command only reads a listing: used to say what the
  commands recorded by \<^const>\<open>logged\<close> do to the store.
\<close>

fun deletedKeys :: "command \<Rightarrow> string set" where
  "deletedKeys (DeleteObjectCommand b k) = {k}"
| "deletedKeys (DeleteObjectsCommand b ks) = set ks"
| "deletedKeys cmd = {}"

fun isListCommand :: "command \<Rightarrow> bool" where
  "isListCommand (ListObjectsV2Command b token delimiter prefix) = True"
| "isListCommand cmd = False"

text \<open>A configuration for the examples: a bucket, the default region, no KMS key.\<close>

definition exampleConfiguration :: IAwsSimpleStorageServiceConfiguration where
  "exampleConfiguration =
     \<lparr>accessKeyId = [], bucket = ''bucket'', keyManagementServiceKeyId = None,
      region = ''us-east-1'', secretAccessKey = [], userAgent = None\<rparr>"

text \<open>
  The recursive operations are unfolded by hand, one call at a time.
\<close>

declare listObjectsAsync.simps [simp del]
declare deleteDirectoryAsync.simps [simp del]
declare deleteObjectAsync.simps [simp del]
declare deleteObjectsAsync.simps [simp del]
declare copyDirectoryAsync.simps [simp del]

section \<open>Canonical paths\<close>

text \<open>
  The shape of what \<^const>\<open>normalizeString\<close> returns. A plain segment is a name: not empty,
  not \<open>.\<close> or \<open>..\<close>, and without a slash. A canonical list of segments is a run of \<open>..\<close>
  (only where the path may climb above its root) followed by plain segments; a canonical
  stack is such a list with its last segment first.
\<close>

definition plain :: "string \<Rightarrow> bool" where
  "plain seg = (seg \<noteq> [] \<and> seg \<noteq> ''.'' \<and> seg \<noteq> ''..'' \<and> CHR ''/'' \<notin> set seg)"

fun canonList :: "bool \<Rightarrow> string list \<Rightarrow> bool" where
  "canonList a [] = True"
| "canonList a (seg # segs) =
     (if seg = ''..'' then a \<and> canonList a segs else plain seg \<and> (\<forall>t \<in> set segs. plain t))"

fun canonStack :: "bool \<Rightarrow> string list \<Rightarrow> bool" where
  "canonStack a [] = True"
| "canonStack a (seg # earlier) =
     (if seg = ''..'' then a \<and> (\<forall>t \<in> set earlier. t = ''..'')
      else plain seg \<and> canonStack a earlier)"

section \<open>Results on the pure functions\<close>

lemma startsWith_Nil [simp]: "startsWith s []"
  by (simp add: startsWith_def)

lemma endsWith_slash: "endsWith s ''/'' \<longleftrightarrow> s \<noteq> [] \<and> last s = CHR ''/''"
proof (cases s rule: rev_cases)
  case Nil
  then show ?thesis by (simp add: endsWith_def)
next
  case (snoc ys y)
  then show ?thesis by (auto simp: endsWith_def)
qed

lemma startsWith_slash: "startsWith s ''/'' \<longleftrightarrow> s \<noteq> [] \<and> hd s = CHR ''/''"
  by (cases s) (auto simp: startsWith_def)

text \<open>
  C9. If the name already starts with the hidden prefix \<open>_.\<close>, \<open>generateHiddenName\<close> returns
  the prefix followed by the whole name, so the prefix is doubled; a name that does not start
  with the prefix is returned unchanged, and so still does not start with it.
\<close>

theorem generateHiddenName_only_doubles:
  "(startsWith n ''_.'' \<longrightarrow> generateHiddenName n = ''_.'' @ n)
   \<and> (\<not> startsWith n ''_.'' \<longrightarrow>
        generateHiddenName n = n \<and> \<not> startsWith (generateHiddenName n) ''_.'')"
  by (simp add: generateHiddenName_def AwsSimpleStorageServiceHiddenPrefix_def)

theorem generateHiddenName_only_doubles_witness:
  "startsWith ''_.cache'' ''_.'' \<and> generateHiddenName ''_.cache'' = ''_._.cache''
   \<and> \<not> startsWith ''cache'' ''_.'' \<and> generateHiddenName ''cache'' = ''cache''"
  using generateHiddenName_only_doubles [of "''_.cache''"]
    generateHiddenName_only_doubles [of "''cache''"]
  by (simp add: startsWith_def)

text \<open>
  C5, as stated, fails: for the empty string the source neither returns the empty key nor sets
  the directory flag.
\<close>

theorem normalizePath_empty_counterexample:
  "\<not> (path (normalizePath [] None) = [] \<and> directory (normalizePath [] None))"
  by code_simp

text \<open>
  C5, amended. The empty string is canonicalized to \<open>.\<close> by the path library, so
  \<open>normalizePath\<close> returns the key \<open>.\<close> with the directory flag unset; when the caller
  forces a directory it returns \<open>./\<close> with the flag set. The key is never empty.
\<close>

theorem normalizePath_empty:
  "normalizePath [] d =
     (if d = Some True then \<lparr>directory = True, path = ''./''\<rparr>
      else \<lparr>directory = False, path = ''.''\<rparr>)"
proof (cases d)
  case None
  have "normalizePath [] None = \<lparr>directory = False, path = ''.''\<rparr>" by code_simp
  with None show ?thesis by simp
next
  case (Some b)
  have t: "normalizePath [] (Some True) = \<lparr>directory = True, path = ''./''\<rparr>" by code_simp
  have f: "normalizePath [] (Some False) = \<lparr>directory = False, path = ''.''\<rparr>" by code_simp
  from Some t f show ?thesis by (cases b) simp_all
qed

theorem normalizePath_empty_witness:
  "normalizePath [] (Some True) = \<lparr>directory = True, path = ''./''\<rparr>
   \<and> normalizePath [] None = \<lparr>directory = False, path = ''.''\<rparr>"
  using normalizePath_empty [of "Some True"] normalizePath_empty [of None] by simp

section \<open>Results on the operations\<close>

lemma normalizePath_forced_directory: "directory (normalizePath p (Some True))"
  by (simp add: normalizePath_def Let_def)

lemma logged_apply: "logged c cmd (log, s) = (fst (c cmd s), (log @ [cmd], snd (c cmd s)))"
  by (simp add: logged_def split: prod.splits)

lemma bucket_exampleConfiguration: "bucket exampleConfiguration = ''bucket''"
  by (simp add: exampleConfiguration_def)


subsection \<open>getObjectAsync\<close>

lemma truthyNumber_iff:
  "truthyNumber v \<longleftrightarrow> (\<exists>n. v = Some n \<and> n \<noteq> NaN \<and> \<not> isZero n)"
  by (cases v) (simp_all add: truthyNumber_def)

lemma not_truthyNumber_iff:
  "\<not> truthyNumber v \<longleftrightarrow> v = None \<or> v = Some NaN \<or> (\<exists>z. v = Some z \<and> isZero z)"
  by (cases v) (auto simp: truthyNumber_def)

text \<open>
  C10, as stated, fails: not-a-number is not zero, and yet \<open>getObject(p, NaN)\<close> sends no
  \<open>Range\<close>, because \<open>!!NaN\<close> is false.
\<close>

theorem getObjectAsync_range_counterexample:
  "\<not> isZero NaN
   \<and> getObjectAsync (logged storeClient) exampleConfiguration ''a'' (Some NaN) None
         ([], [(''a'', ''A'')])
       = Some (Inr (GetObjectCommandOutput (Some ''A'')),
               ([GetObjectCommand ''bucket'' ''a'' None], [(''a'', ''A'')]))"
proof -
  have n: "path (normalizePath ''a'' None) = ''a''" by code_simp
  show ?thesis
    by (simp add: getObjectAsync_def Let_def send_def logged_apply truthyNumber_def n
        bucket_exampleConfiguration)
qed

text \<open>
  C10, amended. \<open>getObjectAsync\<close> sends exactly one \<open>GetObjectCommand\<close> for the normalized key
  and its outcome is what the store answers to that command. The \<open>Range\<close> is set if and only
  if \<open>start\<close> or \<open>end\<close> is truthy, that is, given and neither a zero nor not-a-number; a
  zero and not-a-number count as absent. When only \<open>end\<close> is truthy the range is the template
  \<open>`range=0-${end}`\<close>; when only \<open>start\<close> is truthy it is \<open>`range=${start}`\<close>, with no end bound;
  when both are it is \<open>`range=${start}-${end}`\<close>. The numbers are sent as the runtime prints
  them.
\<close>

theorem getObjectAsync_range:
  "\<exists>r.
     getObjectAsync (logged c) cfg p st en (log, s)
       = Some (fst (c (GetObjectCommand (bucket cfg) (path (normalizePath p None)) r) s),
               (log @ [GetObjectCommand (bucket cfg) (path (normalizePath p None)) r],
                snd (c (GetObjectCommand (bucket cfg) (path (normalizePath p None)) r) s)))
     \<and> (r \<noteq> None \<longleftrightarrow>
            (\<exists>n. st = Some n \<and> n \<noteq> NaN \<and> \<not> isZero n)
            \<or> (\<exists>n. en = Some n \<and> n \<noteq> NaN \<and> \<not> isZero n))
     \<and> ((st = None \<or> st = Some NaN \<or> (\<exists>z. st = Some z \<and> isZero z))
          \<and> en = Some e \<and> e \<noteq> NaN \<and> \<not> isZero e
          \<longrightarrow> r = Some [Characters ''range=0-'', Substitution e])
     \<and> (st = Some b \<and> b \<noteq> NaN \<and> \<not> isZero b
          \<and> (en = None \<or> en = Some NaN \<or> (\<exists>z. en = Some z \<and> isZero z))
          \<longrightarrow> r = Some [Characters ''range='', Substitution b])
     \<and> (st = Some b \<and> b \<noteq> NaN \<and> \<not> isZero b \<and> en = Some e \<and> e \<noteq> NaN \<and> \<not> isZero e
          \<longrightarrow> r = Some [Characters ''range='', Substitution b, Characters ''-'',
                            Substitution e])"
proof -
  let ?r = "if truthyNumber st \<and> truthyNumber en
            then Some [Characters ''range='', Substitution (the st), Characters ''-'',
                       Substitution (the en)]
            else if truthyNumber st then Some [Characters ''range='', Substitution (the st)]
            else if truthyNumber en then Some [Characters ''range=0-'', Substitution (the en)]
            else None"
  let ?cmd = "GetObjectCommand (bucket cfg) (path (normalizePath p None)) ?r"
  have run: "getObjectAsync (logged c) cfg p st en (log, s)
               = Some (fst (c ?cmd s), (log @ [?cmd], snd (c ?cmd s)))"
    by (simp add: getObjectAsync_def Let_def send_def logged_apply)
  have sent: "?r \<noteq> None \<longleftrightarrow>
      (\<exists>n. st = Some n \<and> n \<noteq> NaN \<and> \<not> isZero n)
      \<or> (\<exists>n. en = Some n \<and> n \<noteq> NaN \<and> \<not> isZero n)"
    by (simp add: truthyNumber_iff)
  have endOnly: "?r = Some [Characters ''range=0-'', Substitution e]"
    if "st = None \<or> st = Some NaN \<or> (\<exists>z. st = Some z \<and> isZero z)"
      and "en = Some e" and "e \<noteq> NaN" and "\<not> isZero e"
  proof -
    from that(1) have "\<not> truthyNumber st" by (simp add: not_truthyNumber_iff)
    moreover from that(2-4) have "truthyNumber en" by (simp add: truthyNumber_iff)
    ultimately show ?thesis using that(2) by simp
  qed
  have startOnly: "?r = Some [Characters ''range='', Substitution b]"
    if "st = Some b" and "b \<noteq> NaN" and "\<not> isZero b"
      and "en = None \<or> en = Some NaN \<or> (\<exists>z. en = Some z \<and> isZero z)"
  proof -
    from that(4) have "\<not> truthyNumber en" by (simp add: not_truthyNumber_iff)
    moreover from that(1-3) have "truthyNumber st" by (simp add: truthyNumber_iff)
    ultimately show ?thesis using that(1) by simp
  qed
  have both: "?r = Some [Characters ''range='', Substitution b, Characters ''-'', Substitution e]"
    if "st = Some b" and "b \<noteq> NaN" and "\<not> isZero b"
      and "en = Some e" and "e \<noteq> NaN" and "\<not> isZero e"
  proof -
    from that(1-3) have "truthyNumber st" by (simp add: truthyNumber_iff)
    moreover from that(4-6) have "truthyNumber en" by (simp add: truthyNumber_iff)
    ultimately show ?thesis using that(1,4) by simp
  qed
  from run sent endOnly startOnly both show ?thesis by blast
qed

theorem getObjectAsync_range_witness:
  "getObjectAsync (logged storeClient) exampleConfiguration ''a'' (Some (Finite 0 0))
       (Some (Finite 120 0)) ([], [(''a'', ''A'')])
     = Some (Inr (GetObjectCommandOutput (Some ''A'')),
             ([GetObjectCommand ''bucket'' ''a''
                 (Some [Characters ''range=0-'', Substitution (Finite 120 0)])],
              [(''a'', ''A'')]))
   \<and> getObjectAsync (logged storeClient) exampleConfiguration ''a'' (Some (Finite 1 (- 1)))
       None ([], [(''a'', ''A'')])
     = Some (Inr (GetObjectCommandOutput (Some ''A'')),
             ([GetObjectCommand ''bucket'' ''a''
                 (Some [Characters ''range='', Substitution (Finite 1 (- 1))])],
              [(''a'', ''A'')]))
   \<and> getObjectAsync (logged storeClient) exampleConfiguration ''a'' (Some PositiveInfinity)
       (Some (Finite 7 0)) ([], [(''a'', ''A'')])
     = Some (Inr (GetObjectCommandOutput (Some ''A'')),
             ([GetObjectCommand ''bucket'' ''a''
                 (Some [Characters ''range='', Substitution PositiveInfinity, Characters ''-'',
                        Substitution (Finite 7 0)])],
              [(''a'', ''A'')]))"
proof -
  have n: "path (normalizePath ''a'' None) = ''a''" by code_simp
  have 1: "getObjectAsync (logged storeClient) exampleConfiguration ''a'' (Some (Finite 0 0))
       (Some (Finite 120 0)) ([], [(''a'', ''A'')])
     = Some (Inr (GetObjectCommandOutput (Some ''A'')),
             ([GetObjectCommand ''bucket'' ''a''
                 (Some [Characters ''range=0-'', Substitution (Finite 120 0)])],
              [(''a'', ''A'')]))"
    using getObjectAsync_range
        [of storeClient exampleConfiguration "''a''" "Some (Finite 0 0)" "Some (Finite 120 0)"
           "[]" "[(''a'', ''A'')]" "Finite 120 0" NaN]
    unfolding n bucket_exampleConfiguration by auto
  have 2: "getObjectAsync (logged storeClient) exampleConfiguration ''a'' (Some (Finite 1 (- 1)))
       None ([], [(''a'', ''A'')])
     = Some (Inr (GetObjectCommandOutput (Some ''A'')),
             ([GetObjectCommand ''bucket'' ''a''
                 (Some [Characters ''range='', Substitution (Finite 1 (- 1))])],
              [(''a'', ''A'')]))"
    using getObjectAsync_range
        [of storeClient exampleConfiguration "''a''" "Some (Finite 1 (- 1))" None "[]"
           "[(''a'', ''A'')]" NaN "Finite 1 (- 1)"]
    unfolding n bucket_exampleConfiguration by auto
  have 3: "getObjectAsync (logged storeClient) exampleConfiguration ''a'' (Some PositiveInfinity)
       (Some (Finite 7 0)) ([], [(''a'', ''A'')])
     = Some (Inr (GetObjectCommandOutput (Some ''A'')),
             ([GetObjectCommand ''bucket'' ''a''
                 (Some [Characters ''range='', Substitution PositiveInfinity, Characters ''-'',
                        Substitution (Finite 7 0)])],
              [(''a'', ''A'')]))"
    using getObjectAsync_range
        [of storeClient exampleConfiguration "''a''" "Some PositiveInfinity" "Some (Finite 7 0)"
           "[]" "[(''a'', ''A'')]" "Finite 7 0" PositiveInfinity]
    unfolding n bucket_exampleConfiguration by auto
  from 1 2 3 show ?thesis by simp
qed

subsection \<open>copyObjectAsync\<close>




subsection \<open>listObjectsAsync\<close>

lemma listObjectsAsync_logged:
  "listObjectsAsync fuel (logged c) cfg p tok (log, s) = Some (r, (log', s'))
   \<Longrightarrow> \<exists>cmds. log' = log @ cmds \<and> (\<forall>cmd \<in> set cmds. isListCommand cmd)"
proof (induction fuel arbitrary: tok log s r log' s')
  case 0
  then show ?case by (simp add: listObjectsAsync.simps)
next
  case (Suc fuel)
  let ?key = "path (normalizePath (case p of None \<Rightarrow> ''/'' | Some q \<Rightarrow> q) (Some True))"
  let ?cmd = "ListObjectsV2Command (bucket cfg) tok (if ?key \<noteq> [] then Some ''/'' else None) ?key"
  obtain a s1 where c: "c ?cmd s = (a, s1)" by (cases "c ?cmd s")
  show ?case
  proof (cases a)
    case (Inl e)
    with Suc.prems c show ?thesis
      by (auto simp: listObjectsAsync.simps Let_def await_def send_def logged_apply)
  next
    case (Inr out)
    show ?thesis
    proof (cases "IsTruncated (listing out) = Some True")
      case False
      with Suc.prems c Inr show ?thesis
        by (auto simp: listObjectsAsync.simps Let_def await_def send_def logged_apply resolve_def)
    next
      case True
      from Suc.prems c Inr True
      obtain r2 where rec:
        "listObjectsAsync fuel (logged c) cfg p (ContinuationToken (listing out))
           (log @ [?cmd], s1) = Some (r2, (log', s'))"
        by (auto simp: listObjectsAsync.simps Let_def await_def send_def logged_apply resolve_def
            split: option.splits sum.splits prod.splits)
      from Suc.IH [OF rec] obtain cmds where
        "log' = (log @ [?cmd]) @ cmds" "\<forall>cmd \<in> set cmds. isListCommand cmd"
        by blast
      then have "log' = log @ (?cmd # cmds) \<and> (\<forall>cmd \<in> set (?cmd # cmds). isListCommand cmd)"
        by simp
      then show ?thesis by blast
    qed
  qed
qed

lemma pagedClient_repeats:
  "Suc 0 < length pages \<Longrightarrow> listObjectsAsync fuel (pagedClient pages) cfg p None u = None"
proof (induction fuel)
  case 0
  show ?case by (simp add: listObjectsAsync.simps)
next
  case (Suc fuel)
  then show ?case
    by (simp add: listObjectsAsync.simps Let_def await_def send_def pageOf_def listing_def)
qed

text \<open>
  C3: the source differs from the claim. For the next page \<open>listObjectsAsync\<close> passes on the
  \<open>ContinuationToken\<close> of the output, which is the token of the request just made, and not the
  \<open>NextContinuationToken\<close> the store returned. On a listing of two pages the first request has
  no token, so the same request is made again and again: whatever the bound on the depth of
  recursion, the operation does not return.
\<close>

theorem listObjectsAsync_two_pages_never_returns:
  "\<forall>fuel. listObjectsAsync fuel (pagedClient [[''d/a''], [''d/b'']]) exampleConfiguration
      (Some ''d/'') None () = None"
  by (simp add: pagedClient_repeats)

text \<open>
  C4, as stated, fails. The store reports the first page truncated; by the time the same
  request is repeated the listing has shrunk to one page. The result that is returned holds
  the keys of both answers and still reports \<open>IsTruncated = true\<close>.
\<close>

theorem listObjectsAsync_truncated_counterexample:
  "listObjectsAsync 2 scriptedClient exampleConfiguration (Some ''d/'') None
     [Inr (ListObjectsV2Output
             \<lparr>Contents = Some [Some ''d/a'', Some ''d/b''], CommonPrefixes = None,
              IsTruncated = Some True, ContinuationToken = None,
              NextContinuationToken = Some ''+''\<rparr>),
      Inr (ListObjectsV2Output
             \<lparr>Contents = Some [Some ''d/a''], CommonPrefixes = None,
              IsTruncated = Some False, ContinuationToken = None,
              NextContinuationToken = None\<rparr>)]
   = Some (Inr \<lparr>Contents = Some [Some ''d/a'', Some ''d/b'', Some ''d/a''],
                 CommonPrefixes = None, IsTruncated = Some True, ContinuationToken = None,
                 NextContinuationToken = Some ''+''\<rparr>, [])"
  by code_simp

text \<open>
  C4, amended. The result \<open>listObjectsAsync\<close> returns carries the truncated flag of the first
  page the store answered with: the source merges the keys of the later pages into that page
  and leaves its flag as it is. So the result reports \<open>truncated = false\<close> (or no flag) exactly
  when the first page was not truncated, and then it is that page, unchanged.
\<close>

theorem listObjectsAsync_truncated_flag:
  assumes "listObjectsAsync fuel c cfg p tok s = Some (Inr r, s')"
  shows "\<exists>out s1.
           c (ListObjectsV2Command (bucket cfg) tok
                (if path (normalizePath (case p of None \<Rightarrow> ''/'' | Some q \<Rightarrow> q) (Some True)) \<noteq> []
                 then Some ''/'' else None)
                (path (normalizePath (case p of None \<Rightarrow> ''/'' | Some q \<Rightarrow> q) (Some True)))) s
             = (Inr out, s1)
           \<and> IsTruncated r = IsTruncated (listing out)
           \<and> (IsTruncated r \<noteq> Some True \<longrightarrow> r = listing out \<and> s' = s1)"
proof (cases fuel)
  case 0
  with assms show ?thesis by (simp add: listObjectsAsync.simps)
next
  case (Suc n)
  with assms show ?thesis
    by (auto simp: listObjectsAsync.simps Let_def await_def send_def resolve_def
        split: option.splits sum.splits prod.splits if_splits)
qed

theorem listObjectsAsync_truncated_flag_witness:
  "\<exists>out s1.
     storeClient (ListObjectsV2Command ''bucket'' None (Some ''/'') ''d/'') [(''d/a'', ''A'')]
       = (Inr out, s1)
     \<and> Some False = IsTruncated (listing out)
     \<and> [(''d/a'', ''A'')] = s1"
proof -
  have n: "path (normalizePath ''d/'' (Some True)) = ''d/''" by code_simp
  have h: "listObjectsAsync 1 storeClient exampleConfiguration (Some ''d/'') None [(''d/a'', ''A'')]
             = Some (Inr \<lparr>Contents = Some [Some ''d/a''], CommonPrefixes = None,
                           IsTruncated = Some False, ContinuationToken = None,
                           NextContinuationToken = None\<rparr>, [(''d/a'', ''A'')])"
    by code_simp
  from listObjectsAsync_truncated_flag [OF h] show ?thesis
    by (simp add: n bucket_exampleConfiguration)
qed

subsection \<open>Deleting\<close>

text \<open>
  C7. When the listing of the directory, one level deep, holds no object key,
  \<open>deleteDirectoryAsync\<close> resolves to \<open>null\<close>, and the only commands it has sent are those of
  the listing: none of them deletes a key. The common prefixes of the listing play no part.
\<close>

theorem deleteDirectoryAsync_no_objects:
  assumes list: "listObjectsAsync fuel (logged c) cfg
                   (Some (path (normalizePath dir (Some True)))) None (log, s)
                   = Some (Inr data, (log', s'))"
      and empty: "orEmpty (Contents data) = []"
  shows "deleteDirectoryAsync (Suc fuel) (logged c) cfg dir (log, s) = Some (Inr None, (log', s'))
         \<and> (\<exists>cmds. log' = log @ cmds
                \<and> (\<forall>cmd \<in> set cmds. isListCommand cmd \<and> deletedKeys cmd = {}))"
proof -
  have 1: "deleteDirectoryAsync (Suc fuel) (logged c) cfg dir (log, s)
             = Some (Inr None, (log', s'))"
    using list empty
    by (simp add: deleteDirectoryAsync.simps Let_def normalizePath_forced_directory
        await_def resolve_def)
  from listObjectsAsync_logged [OF list] obtain cmds where
    cmds: "log' = log @ cmds" "\<forall>cmd \<in> set cmds. isListCommand cmd" by blast
  have "deletedKeys cmd = {}" if "isListCommand cmd" for cmd
    using that by (cases cmd) simp_all
  with cmds have "log' = log @ cmds
      \<and> (\<forall>cmd \<in> set cmds. isListCommand cmd \<and> deletedKeys cmd = {})"
    by simp
  with 1 show ?thesis by blast
qed

theorem deleteDirectoryAsync_no_objects_witness:
  "deleteDirectoryAsync 2 (logged storeClient) exampleConfiguration ''d/''
     ([], [(''d/sub/x'', ''A'')])
   = Some (Inr None,
           ([ListObjectsV2Command ''bucket'' None (Some ''/'') ''d/''], [(''d/sub/x'', ''A'')]))"
proof -
  have h: "listObjectsAsync 1 (logged storeClient) exampleConfiguration
             (Some (path (normalizePath ''d/'' (Some True)))) None ([], [(''d/sub/x'', ''A'')])
             = Some (Inr \<lparr>Contents = None, CommonPrefixes = Some [Some ''d/sub/''],
                           IsTruncated = Some False, ContinuationToken = None,
                           NextContinuationToken = None\<rparr>,
                     ([ListObjectsV2Command ''bucket'' None (Some ''/'') ''d/''],
                      [(''d/sub/x'', ''A'')]))"
    by code_simp
  have e: "orEmpty (Contents \<lparr>Contents = None, CommonPrefixes = Some [Some ''d/sub/''],
                           IsTruncated = Some False, ContinuationToken = None,
                           NextContinuationToken = None\<rparr>) = []"
    by (simp add: orEmpty_def)
  have two: "Suc 1 = 2" by simp
  from deleteDirectoryAsync_no_objects [OF h e] show ?thesis
    unfolding two by simp
qed

text \<open>
  C8, as stated, fails: for a key that ends with a slash, \<open>deleteObjects([k])\<close> sends one batch
  delete of that key and leaves the objects below it in the store, while \<open>deleteObject(k)\<close>
  deletes the directory with all it holds.
\<close>

theorem deleteObjectsAsync_counterexample:
  "deleteObjectsAsync 2 (logged storeClient) exampleConfiguration (Multiple [''d/''])
     ([], [(''d/x'', ''A'')])
   = Some (Inr (Some DeleteObjectsCommandOutput),
           ([DeleteObjectsCommand ''bucket'' [''d/'']], [(''d/x'', ''A'')]))
   \<and> deleteObjectAsync 2 (logged storeClient) exampleConfiguration (Single ''d/'')
     ([], [(''d/x'', ''A'')])
   = Some (Inr (Some DeleteObjectCommandOutput),
           ([ListObjectsV2Command ''bucket'' None (Some ''/'') ''d/'',
             DeleteObjectsCommand ''bucket'' [''d/x''],
             DeleteObjectCommand ''bucket'' ''d/''], []))"
  by code_simp

text \<open>
  C8, amended. \<open>deleteObjects\<close> of an empty sequence resolves to \<open>null\<close> and sends nothing.
  Given one string that is not empty, it is \<open>deleteObject\<close> of that string. Given the sequence
  of one key \<open>k\<close> that does not normalize to a directory, it sends one batch delete naming
  the normalized key, where \<open>deleteObject(k)\<close> sends one single delete of the same key; on the
  store both remove that key and nothing else, and they resolve to the outputs of their
  commands.
\<close>

theorem deleteObjectsAsync_empty_and_single:
  "deleteObjectsAsync fuel (logged c) cfg (Multiple []) (log, s) = Some (Inr None, (log, s))
   \<and> (k \<noteq> [] \<longrightarrow>
        deleteObjectsAsync fuel c cfg (Single k) = deleteObjectAsync fuel c cfg (Single k))
   \<and> (\<not> directory (normalizePath k None) \<longrightarrow>
        (\<exists>r1 r2 s1 s2.
           deleteObjectsAsync fuel (logged c) cfg (Multiple [k]) (log, s)
             = Some (r1, (log @ [DeleteObjectsCommand (bucket cfg) [path (normalizePath k None)]],
                          s1))
           \<and> deleteObjectAsync fuel (logged c) cfg (Single k) (log, s)
             = Some (r2, (log @ [DeleteObjectCommand (bucket cfg) (path (normalizePath k None))],
                          s2)))
        \<and> deleteObjectsAsync fuel storeClient cfg (Multiple [k]) st
             = Some (Inr (Some DeleteObjectsCommandOutput),
                     removeKey (path (normalizePath k None)) st)
        \<and> deleteObjectAsync fuel storeClient cfg (Single k) st
             = Some (Inr (Some DeleteObjectCommandOutput),
                     removeKey (path (normalizePath k None)) st))"
  by (auto simp: deleteObjectsAsync.simps deleteObjectAsync.simps Let_def await_def send_def
      resolve_def logged_apply split: sum.splits prod.splits)

theorem deleteObjectsAsync_empty_and_single_witness:
  "''k'' \<noteq> [] \<and> \<not> directory (normalizePath ''k'' None)
   \<and> deleteObjectsAsync 0 storeClient exampleConfiguration (Single ''k'')
       = deleteObjectAsync 0 storeClient exampleConfiguration (Single ''k'')
   \<and> deleteObjectsAsync 0 storeClient exampleConfiguration (Multiple [''k''])
       [(''k'', ''A''), (''l'', ''B'')]
       = Some (Inr (Some DeleteObjectsCommandOutput), [(''l'', ''B'')])
   \<and> deleteObjectAsync 0 storeClient exampleConfiguration (Single ''k'')
       [(''k'', ''A''), (''l'', ''B'')]
       = Some (Inr (Some DeleteObjectCommandOutput), [(''l'', ''B'')])"
proof -
  have nd: "\<not> directory (normalizePath ''k'' None)" by code_simp
  have n: "path (normalizePath ''k'' None) = ''k''" by code_simp
  from deleteObjectsAsync_empty_and_single
         [of 0 storeClient exampleConfiguration "[]" "[(''k'', ''A''), (''l'', ''B'')]" "''k''"
            "[(''k'', ''A''), (''l'', ''B'')]"] nd
  show ?thesis by (simp add: n removeKey_def)
qed

subsection \<open>copyDirectoryAsync and moveDirectoryAsync\<close>

lemma three: "(3::nat) = Suc 2"
  by simp

lemma four: "(4::nat) = Suc 3"
  by simp

lemma move_nested:
  "copyDirectoryAsync 3 storeClient exampleConfiguration ''now'' ''src/sub/'' ''dst/sub/''
     (Some True) [(''src/a.txt'', ''A''), (''src/sub/b.txt'', ''B'')]
   = Some (Inr [PutObjectCommandOutput ''dst/sub/b.txt''], [(''src/a.txt'', ''A'')])"
proof -
  let ?st = "[(''src/a.txt'', ''A''), (''src/sub/b.txt'', ''B'')]"
  let ?src = "path (normalizePath ''src/sub/'' (Some True))"
  let ?dst = "path (normalizePath ''dst/sub/'' (Some True))"
  have e: "directoryExistsAsync 2 storeClient exampleConfiguration ?src ?st = Some (Inr True, ?st)"
    by code_simp
  have l: "listObjectsAsync 2 storeClient exampleConfiguration (Some ?src) None ?st
             = Some (Inr \<lparr>Contents = Some [Some ''src/sub/b.txt''], CommonPrefixes = None,
                           IsTruncated = Some False, ContinuationToken = None,
                           NextContinuationToken = None\<rparr>, ?st)"
    by code_simp
  have c: "copyObjectAsync 2 storeClient exampleConfiguration ''now'' ''src/sub/b.txt''
             (replace ''src/sub/b.txt'' ?src ?dst) (Some True) ?st
             = Some (Inr (PutObjectCommandOutput ''dst/sub/b.txt''), ?st)"
    by code_simp
  have d: "deleteDirectoryAsync 2 storeClient exampleConfiguration ?src ?st
             = Some (Inr (Some DeleteObjectCommandOutput), [(''src/a.txt'', ''A'')])"
    by code_simp
  show ?thesis
    unfolding three
    by (subst copyDirectoryAsync.simps)
      (simp add: Let_def await_def resolve_def e l c d
        orEmpty_def truthyStrings_def truthyString_def)
qed

lemma copy_nested:
  "copyDirectoryAsync 3 storeClient exampleConfiguration ''now'' ''src/sub/'' ''dst/sub/'' None
     [(''src/a.txt'', ''A''), (''src/sub/b.txt'', ''B''), (''dst/a.txt'', ''A'')]
   = Some (Inr [PutObjectCommandOutput ''dst/sub/b.txt''],
           [(''src/a.txt'', ''A''), (''src/sub/b.txt'', ''B''), (''dst/a.txt'', ''A''),
            (''dst/sub/b.txt'', ''B'')])"
proof -
  let ?st = "[(''src/a.txt'', ''A''), (''src/sub/b.txt'', ''B''), (''dst/a.txt'', ''A'')]"
  let ?src = "path (normalizePath ''src/sub/'' (Some True))"
  let ?dst = "path (normalizePath ''dst/sub/'' (Some True))"
  have e: "directoryExistsAsync 2 storeClient exampleConfiguration ?src ?st = Some (Inr True, ?st)"
    by code_simp
  have l: "listObjectsAsync 2 storeClient exampleConfiguration (Some ?src) None ?st
             = Some (Inr \<lparr>Contents = Some [Some ''src/sub/b.txt''], CommonPrefixes = None,
                           IsTruncated = Some False, ContinuationToken = None,
                           NextContinuationToken = None\<rparr>, ?st)"
    by code_simp
  have c: "copyObjectAsync 2 storeClient exampleConfiguration ''now'' ''src/sub/b.txt''
             (replace ''src/sub/b.txt'' ?src ?dst) None ?st
             = Some (Inr (PutObjectCommandOutput ''dst/sub/b.txt''),
                     ?st @ [(''dst/sub/b.txt'', ''B'')])"
    by code_simp
  show ?thesis
    unfolding three
    by (subst copyDirectoryAsync.simps)
      (simp add: Let_def await_def resolve_def e l c
        orEmpty_def truthyStrings_def truthyString_def)
qed

text \<open>
  C2: the source differs from the claim. On the store that holds \<open>src/a.txt\<close> and
  \<open>src/sub/b.txt\<close>, \<open>moveDirectoryAsync\<close> from \<open>src/\<close> to \<open>dst/\<close> resolves to the two put
  outputs and leaves the store empty: \<open>src/\<close> is gone, and so is \<open>dst/\<close>, because each copy
  with \<open>deleteOriginal\<close> deletes the destination key it has just written. The copy without
  deletion, on the same store, leaves \<open>dst/a.txt\<close> and \<open>dst/sub/b.txt\<close> beside the sources.
\<close>

theorem moveDirectoryAsync_empties_destination:
  "moveDirectoryAsync 4 storeClient exampleConfiguration ''now'' ''src/'' ''dst/''
     [(''src/a.txt'', ''A''), (''src/sub/b.txt'', ''B'')]
   = Some (Inr [PutObjectCommandOutput ''dst/a.txt'', PutObjectCommandOutput ''dst/sub/b.txt''],
           [])
   \<and> copyDirectoryAsync 4 storeClient exampleConfiguration ''now'' ''src/'' ''dst/'' None
     [(''src/a.txt'', ''A''), (''src/sub/b.txt'', ''B'')]
   = Some (Inr [PutObjectCommandOutput ''dst/a.txt'', PutObjectCommandOutput ''dst/sub/b.txt''],
           [(''src/a.txt'', ''A''), (''src/sub/b.txt'', ''B''), (''dst/a.txt'', ''A''),
            (''dst/sub/b.txt'', ''B'')])"
proof -
  let ?st = "[(''src/a.txt'', ''A''), (''src/sub/b.txt'', ''B'')]"
  let ?st1 = "[(''src/a.txt'', ''A'')]"
  let ?src = "path (normalizePath ''src/'' (Some True))"
  let ?dst = "path (normalizePath ''dst/'' (Some True))"
  have e: "directoryExistsAsync 3 storeClient exampleConfiguration ?src ?st = Some (Inr True, ?st)"
    by code_simp
  have l: "listObjectsAsync 3 storeClient exampleConfiguration (Some ?src) None ?st
             = Some (Inr \<lparr>Contents = Some [Some ''src/a.txt''],
                           CommonPrefixes = Some [Some ''src/sub/''],
                           IsTruncated = Some False, ContinuationToken = None,
                           NextContinuationToken = None\<rparr>, ?st)"
    by code_simp
  have c: "copyObjectAsync 3 storeClient exampleConfiguration ''now'' ''src/a.txt''
             (replace ''src/a.txt'' ?src ?dst) (Some True) ?st
             = Some (Inr (PutObjectCommandOutput ''dst/a.txt''), ?st)"
    by code_simp
  have r: "replace ''src/sub/'' ?src ?dst = ''dst/sub/''"
    by code_simp
  have e2: "directoryExistsAsync 3 storeClient exampleConfiguration ?src ?st1
              = Some (Inr True, ?st1)"
    by code_simp
  have d: "deleteDirectoryAsync 3 storeClient exampleConfiguration ?src ?st1
             = Some (Inr (Some DeleteObjectCommandOutput), [])"
    by code_simp
  have c': "copyObjectAsync 3 storeClient exampleConfiguration ''now'' ''src/a.txt''
             (replace ''src/a.txt'' ?src ?dst) None ?st
             = Some (Inr (PutObjectCommandOutput ''dst/a.txt''), ?st @ [(''dst/a.txt'', ''A'')])"
    by code_simp
  have move: "moveDirectoryAsync 4 storeClient exampleConfiguration ''now'' ''src/'' ''dst/'' ?st
      = Some (Inr [PutObjectCommandOutput ''dst/a.txt'',
                   PutObjectCommandOutput ''dst/sub/b.txt''], [])"
    unfolding moveDirectoryAsync_def four
    by (subst copyDirectoryAsync.simps)
      (simp add: Let_def await_def resolve_def e l c r move_nested e2 d
        orEmpty_def truthyStrings_def truthyString_def)
  have copy: "copyDirectoryAsync 4 storeClient exampleConfiguration ''now'' ''src/'' ''dst/'' None
        ?st
      = Some (Inr [PutObjectCommandOutput ''dst/a.txt'',
                   PutObjectCommandOutput ''dst/sub/b.txt''],
              [(''src/a.txt'', ''A''), (''src/sub/b.txt'', ''B''), (''dst/a.txt'', ''A''),
               (''dst/sub/b.txt'', ''B'')])"
    unfolding four
    by (subst copyDirectoryAsync.simps)
      (simp add: Let_def await_def resolve_def e l c' r copy_nested
        orEmpty_def truthyStrings_def truthyString_def)
  from move copy show ?thesis by simp
qed

section \<open>Normalizing twice\<close>

subsection \<open>Segments\<close>

lemma splitSegments_nonempty [simp]: "splitSegments x \<noteq> []"
  by (induction x) (auto split: list.splits)

lemma splitSegments_noslash: "seg \<in> set (splitSegments x) \<Longrightarrow> CHR ''/'' \<notin> set seg"
  by (induction x arbitrary: seg) (auto split: list.splits if_splits)

lemma splitSegments_append:
  "splitSegments (x @ CHR ''/'' # y) = splitSegments x @ splitSegments y"
  by (induction x) (auto split: list.splits)

lemma splitSegments_noslash_id: "CHR ''/'' \<notin> set seg \<Longrightarrow> splitSegments seg = [seg]"
  by (induction seg) auto

lemma splitSegments_join:
  "L \<noteq> [] \<Longrightarrow> \<forall>seg \<in> set L. CHR ''/'' \<notin> set seg \<Longrightarrow> splitSegments (joinSegments L) = L"
  by (induction L rule: joinSegments.induct)
    (auto simp: splitSegments_noslash_id splitSegments_append)

lemma set_splitSegments: "seg \<in> set (splitSegments x) \<Longrightarrow> c \<in> set seg \<Longrightarrow> c \<in> set x"
proof (induction x arbitrary: seg)
  case Nil
  then show ?case by simp
next
  case (Cons y ys)
  obtain s1 ss where sp: "splitSegments ys = s1 # ss"
    by (cases "splitSegments ys") auto
  show ?case
  proof (cases "y = CHR ''/''")
    case True
    with Cons.prems Cons.IH show ?thesis by auto
  next
    case False
    with Cons.prems sp have "seg = y # s1 \<or> seg \<in> set ss" by simp
    then show ?thesis
    proof
      assume "seg = y # s1"
      with Cons.prems(2) have "c = y \<or> c \<in> set s1" by simp
      with Cons.IH [of s1] sp show ?thesis by auto
    next
      assume "seg \<in> set ss"
      with Cons.IH [of seg] sp Cons.prems(2) show ?thesis by simp
    qed
  qed
qed

lemma set_joinSegments: "set (joinSegments L) \<subseteq> (\<Union>seg \<in> set L. set seg) \<union> {CHR ''/''}"
  by (induction L rule: joinSegments.induct) auto

lemma normalizeString_set:
  "x \<in> set (normalizeString a res segs) \<Longrightarrow> x \<in> set res \<or> x \<in> set segs"
proof (induction segs arbitrary: res)
  case Nil
  then show ?case by simp
next
  case (Cons seg segs)
  note IH = Cons.IH and mem = Cons.prems
  show ?case
  proof (cases "seg = [] \<or> seg = ''.''")
    case True
    with mem have "x \<in> set (normalizeString a res segs)" by auto
    from IH [OF this] show ?thesis by auto
  next
    case skip: False
    show ?thesis
    proof (cases "seg = ''..''")
      case False
      with skip mem have "x \<in> set (normalizeString a (seg # res) segs)" by simp
      from IH [OF this] show ?thesis by auto
    next
      case True
      show ?thesis
      proof (cases res)
        case Nil
        with True mem
        have "x \<in> set (normalizeString a (if a then [seg] else []) segs)"
          by (cases a) auto
        from IH [OF this] show ?thesis by (auto split: if_splits)
      next
        case (Cons lastSegment earlier)
        show ?thesis
        proof (cases "lastSegment = ''..''")
          case False
          with True Cons mem
          have "x \<in> set (normalizeString a earlier segs)" by simp
          from IH [OF this] Cons show ?thesis by auto
        next
          case dots: True
          with True Cons mem
          have "x \<in> set (normalizeString a (if a then seg # res else res) segs)"
            by (cases a) auto
          from IH [OF this] show ?thesis by (auto split: if_splits)
        qed
      qed
    qed
  qed
qed

lemma normalizeString_snoc_empty:
  "normalizeString a res (segs @ [[]]) = normalizeString a res segs"
  by (induction segs arbitrary: res) (auto split: list.splits)

lemma normalizeString_plains:
  "\<forall>s \<in> set ps. plain s \<Longrightarrow> normalizeString a res ps = rev res @ ps"
  by (induction ps arbitrary: res) (auto simp: plain_def)

lemma normalizeString_canon_fix:
  "canonList a L \<Longrightarrow> \<forall>t \<in> set res. t = ''..'' \<Longrightarrow> normalizeString a res L = rev res @ L"
proof (induction L arbitrary: res)
  case Nil
  then show ?case by simp
next
  case (Cons seg segs)
  show ?case
  proof (cases "seg = ''..''")
    case True
    with Cons.prems have a: a and c: "canonList a segs" by auto
    from Cons.prems(2) have "\<forall>t \<in> set (seg # res). t = ''..''" using True by simp
    from Cons.IH [OF c this] True a Cons.prems(2) show ?thesis
      by (cases res) auto
  next
    case False
    with Cons.prems have "\<forall>s \<in> set (seg # segs). plain s" by auto
    from normalizeString_plains [OF this] show ?thesis .
  qed
qed

lemma canonList_dots: "a \<Longrightarrow> \<forall>t \<in> set L. t = ''..'' \<Longrightarrow> canonList a L"
  by (induction L) auto

lemma canonList_snoc_plain: "canonList a M \<Longrightarrow> plain s \<Longrightarrow> canonList a (M @ [s])"
  by (induction M) (auto simp: plain_def)

lemma canonStack_rev: "canonStack a res \<Longrightarrow> canonList a (rev res)"
proof (induction res)
  case Nil
  then show ?case by simp
next
  case (Cons seg earlier)
  show ?case
  proof (cases "seg = ''..''")
    case True
    with Cons.prems have "a" "\<forall>t \<in> set (rev earlier @ [seg]). t = ''..''" by auto
    from canonList_dots [OF this] show ?thesis by simp
  next
    case False
    with Cons show ?thesis by (simp add: canonList_snoc_plain)
  qed
qed

lemma normalizeString_canon:
  "canonStack a res \<Longrightarrow> \<forall>seg \<in> set segs. CHR ''/'' \<notin> set seg
   \<Longrightarrow> canonList a (normalizeString a res segs)"
proof (induction segs arbitrary: res)
  case Nil
  then show ?case by (simp add: canonStack_rev)
next
  case (Cons seg segs)
  then show ?case
    by (cases res) (auto simp: plain_def split: if_splits)
qed

lemma canonList_mono: "canonList False L \<Longrightarrow> canonList True L"
  by (induction L) (auto split: if_splits)

lemma canonList_segments:
  "canonList a L \<Longrightarrow> seg \<in> set L \<Longrightarrow> seg \<noteq> [] \<and> CHR ''/'' \<notin> set seg"
  by (induction L) (auto simp: plain_def split: if_splits)

lemma joinSegments_Nil_iff: "\<forall>seg \<in> set L. seg \<noteq> [] \<Longrightarrow> joinSegments L = [] \<longleftrightarrow> L = []"
  by (induction L rule: joinSegments.induct) auto

lemma hd_noslash: "seg \<noteq> [] \<Longrightarrow> CHR ''/'' \<notin> set seg \<Longrightarrow> hd seg \<noteq> CHR ''/''"
  by (cases seg) auto

lemma last_noslash: "seg \<noteq> [] \<Longrightarrow> CHR ''/'' \<notin> set seg \<Longrightarrow> last seg \<noteq> CHR ''/''"
  by (cases seg rule: rev_cases) auto

lemma joinSegments_nonempty: "seg \<noteq> [] \<Longrightarrow> joinSegments (seg # segs) \<noteq> []"
  by (cases segs) auto

lemma hd_joinSegments:
  "L \<noteq> [] \<Longrightarrow> \<forall>seg \<in> set L. seg \<noteq> [] \<and> CHR ''/'' \<notin> set seg \<Longrightarrow> hd (joinSegments L) \<noteq> CHR ''/''"
  by (induction L rule: joinSegments.induct) (auto simp: hd_append hd_noslash)

lemma last_joinSegments:
  "L \<noteq> [] \<Longrightarrow> \<forall>seg \<in> set L. seg \<noteq> [] \<and> CHR ''/'' \<notin> set seg \<Longrightarrow> last (joinSegments L) \<noteq> CHR ''/''"
  by (induction L rule: joinSegments.induct) (auto simp: joinSegments_nonempty last_noslash)

subsection \<open>The path library keeps canonical paths\<close>

lemma canonStack_Nil_body:
  "canonList a (normalizeString a [] (splitSegments x))"
  by (rule normalizeString_canon) (auto dest: splitSegments_noslash)

lemma path_normalize_form:
  assumes "x \<noteq> []"
  defines "L \<equiv> normalizeString (hd x \<noteq> CHR ''/'') [] (splitSegments x)"
  shows "path_normalize x =
           (if L = [] then
              (if hd x = CHR ''/'' then ''/'' else if last x = CHR ''/'' then ''./'' else ''.'')
            else (if hd x = CHR ''/'' then ''/'' else []) @ joinSegments L
                 @ (if last x = CHR ''/'' then ''/'' else []))"
proof -
  have c: "canonList (hd x \<noteq> CHR ''/'') L"
    unfolding L_def by (rule canonStack_Nil_body)
  then have "\<forall>seg \<in> set L. seg \<noteq> []" using canonList_segments by blast
  then have "joinSegments L = [] \<longleftrightarrow> L = []" by (rule joinSegments_Nil_iff)
  with assms(1) show ?thesis
    unfolding path_normalize_def L_def Let_def by simp
qed

lemma path_normalize_fix:
  assumes ne: "L \<noteq> []" and c: "canonList (\<not> ab) L"
  shows "path_normalize ((if ab then ''/'' else []) @ joinSegments L @ (if tr then ''/'' else []))
           = (if ab then ''/'' else []) @ joinSegments L @ (if tr then ''/'' else [])"
proof -
  let ?y = "(if ab then ''/'' else []) @ joinSegments L @ (if tr then ''/'' else [])"
  have segs: "\<forall>seg \<in> set L. seg \<noteq> [] \<and> CHR ''/'' \<notin> set seg"
    using c canonList_segments by blast
  then have noslash: "\<forall>seg \<in> set L. CHR ''/'' \<notin> set seg" by blast
  have jne: "joinSegments L \<noteq> []"
    using ne segs joinSegments_Nil_iff [of L] by blast
  have hdj: "hd (joinSegments L) \<noteq> CHR ''/''" by (rule hd_joinSegments [OF ne segs])
  have lastj: "last (joinSegments L) \<noteq> CHR ''/''" by (rule last_joinSegments [OF ne segs])
  have sj: "splitSegments (joinSegments L) = L" by (rule splitSegments_join [OF ne noslash])
  have yne: "?y \<noteq> []" using jne by simp
  have hdy: "hd ?y = CHR ''/'' \<longleftrightarrow> ab" using jne hdj by (simp add: hd_append)
  have lasty: "last ?y = CHR ''/'' \<longleftrightarrow> tr" using jne lastj by simp
  have split1: "splitSegments (joinSegments L @ (if tr then ''/'' else []))
                  = L @ (if tr then [[]] else [])"
    using splitSegments_append [of "joinSegments L" "[]"] sj by simp
  have split: "splitSegments ?y = (if ab then [[]] else []) @ L @ (if tr then [[]] else [])"
    using split1 splitSegments_append [of "[]" "joinSegments L @ (if tr then ''/'' else [])"]
    by simp
  have fix0: "normalizeString (\<not> ab) [] L = L"
    using normalizeString_canon_fix [OF c, of "[]"] by simp
  have ns: "normalizeString (\<not> ab) [] (splitSegments ?y) = L"
    unfolding split using fix0 normalizeString_snoc_empty [of "\<not> ab" "[]" L]
    by (cases ab; cases tr) simp_all
  have "path_normalize ?y = (if ab then ''/'' else []) @ joinSegments L
                            @ (if tr then ''/'' else [])"
    using path_normalize_form [OF yne] ns ne
    unfolding hdy lasty
    by (simp add: hdy)
  then show ?thesis .
qed

lemma path_normalize_small:
  "path_normalize [] = ''.''" "path_normalize ''.'' = ''.''" "path_normalize ''./'' = ''./''"
  "path_normalize ''/'' = ''/''"
  by code_simp+

lemma path_normalize_idem: "path_normalize (path_normalize x) = path_normalize x"
proof (cases "x = []")
  case True
  then show ?thesis by (simp add: path_normalize_small)
next
  case False
  let ?L = "normalizeString (hd x \<noteq> CHR ''/'') [] (splitSegments x)"
  show ?thesis
  proof (cases "?L = []")
    case True
    with path_normalize_form [OF False] show ?thesis
      by (auto simp: path_normalize_small)
  next
    case ne: False
    have c: "canonList (\<not> (hd x = CHR ''/'')) ?L"
      using canonStack_Nil_body [of "hd x \<noteq> CHR ''/''" x] by simp
    from path_normalize_fix [OF ne c, of "last x = CHR ''/''"]
      path_normalize_form [OF False] ne
    show ?thesis by simp
  qed
qed

lemma path_normalize_strip:
  assumes "path_normalize x = CHR ''/'' # z" and "z \<noteq> []"
  shows "path_normalize z = z \<and> hd z \<noteq> CHR ''/''"
proof -
  have xne: "x \<noteq> []" using assms(1) by (auto simp: path_normalize_small)
  let ?L = "normalizeString (hd x \<noteq> CHR ''/'') [] (splitSegments x)"
  have c: "canonList (hd x \<noteq> CHR ''/'') ?L" by (rule canonStack_Nil_body)
  have ne: "?L \<noteq> []"
    using path_normalize_form [OF xne] assms by (auto split: if_splits)
  have segs: "\<forall>seg \<in> set ?L. seg \<noteq> [] \<and> CHR ''/'' \<notin> set seg"
    using c canonList_segments by blast
  have jne: "joinSegments ?L \<noteq> []"
    using ne segs joinSegments_Nil_iff [of ?L] by blast
  have hdj: "hd (joinSegments ?L) \<noteq> CHR ''/''" by (rule hd_joinSegments [OF ne segs])
  have ab: "hd x = CHR ''/''"
  proof (rule ccontr)
    assume "hd x \<noteq> CHR ''/''"
    with path_normalize_form [OF xne] ne assms(1)
    have "joinSegments ?L @ (if last x = CHR ''/'' then ''/'' else []) = CHR ''/'' # z" by simp
    with jne hdj show False by (cases "joinSegments ?L") auto
  qed
  with path_normalize_form [OF xne] ne assms(1)
  have z: "z = joinSegments ?L @ (if last x = CHR ''/'' then ''/'' else [])" by simp
  from c ab have "canonList False ?L" by simp
  then have "canonList (\<not> False) ?L" using canonList_mono by simp
  from path_normalize_fix [OF ne this, of "last x = CHR ''/''"] z
  have "path_normalize z = z" by simp
  moreover have "hd z \<noteq> CHR ''/''" using z jne hdj by (simp add: hd_append)
  ultimately show ?thesis by simp
qed

lemma path_normalize_relative:
  assumes "x \<noteq> []" and "hd x \<noteq> CHR ''/''"
  shows "path_normalize x \<noteq> [] \<and> hd (path_normalize x) \<noteq> CHR ''/''"
proof -
  let ?L = "normalizeString (hd x \<noteq> CHR ''/'') [] (splitSegments x)"
  have c: "canonList (hd x \<noteq> CHR ''/'') ?L" by (rule canonStack_Nil_body)
  show ?thesis
  proof (cases "?L = []")
    case True
    with path_normalize_form [OF assms(1)] assms(2) show ?thesis by auto
  next
    case ne: False
    have segs: "\<forall>seg \<in> set ?L. seg \<noteq> [] \<and> CHR ''/'' \<notin> set seg"
      using c canonList_segments by blast
    have jne: "joinSegments ?L \<noteq> []"
      using ne segs joinSegments_Nil_iff [of ?L] by blast
    have hdj: "hd (joinSegments ?L) \<noteq> CHR ''/''" by (rule hd_joinSegments [OF ne segs])
    from path_normalize_form [OF assms(1)] ne assms(2) jne hdj show ?thesis
      by (simp add: hd_append)
  qed
qed

lemma path_normalize_trailing: "endsWith (path_normalize (x @ ''/'')) ''/''"
proof -
  have "x @ ''/'' \<noteq> []" by simp
  from path_normalize_form [OF this] show ?thesis
    by (auto simp: endsWith_slash)
qed

lemma path_normalize_chars:
  assumes "c \<in> set (path_normalize x)"
  shows "c \<in> set x \<or> c = CHR ''/'' \<or> c = CHR ''.''"
proof (cases "x = []")
  case True
  with assms show ?thesis by (simp add: path_normalize_small)
next
  case False
  let ?L = "normalizeString (hd x \<noteq> CHR ''/'') [] (splitSegments x)"
  show ?thesis
  proof (cases "?L = []")
    case True
    with path_normalize_form [OF False] assms show ?thesis by (auto split: if_splits)
  next
    case ne: False
    with path_normalize_form [OF False] assms
    have "c \<in> set (joinSegments ?L) \<or> c = CHR ''/''" by (auto split: if_splits)
    then show ?thesis
    proof
      assume "c \<in> set (joinSegments ?L)"
      with set_joinSegments [of ?L] obtain seg where
        "c = CHR ''/'' \<or> (seg \<in> set ?L \<and> c \<in> set seg)" by auto
      then show ?thesis
      proof
        assume "seg \<in> set ?L \<and> c \<in> set seg"
        then have s: "seg \<in> set ?L" and m: "c \<in> set seg" by simp_all
        from normalizeString_set [OF s] have "seg \<in> set (splitSegments x)" by simp
        from set_splitSegments [OF this m] show ?thesis by simp
      qed simp
    qed simp
  qed
qed

subsection \<open>normalizePath on its own result\<close>

lemma replaceSlashesFrom_id: "CHR 0x5C \<notin> set x \<Longrightarrow> replaceSlashesFrom b x = x"
  by (induction x arbitrary: b) auto

lemma replaceSlashes_id: "CHR 0x5C \<notin> set x \<Longrightarrow> replaceSlashes x = x"
  by (simp add: replaceSlashes_def replaceSlashesFrom_id)

lemma replaceSlashesFrom_clean: "CHR 0x5C \<notin> set (replaceSlashesFrom b x)"
  by (induction x arbitrary: b) auto

lemma replaceSlashes_clean: "CHR 0x5C \<notin> set (replaceSlashes x)"
  by (simp add: replaceSlashes_def replaceSlashesFrom_clean)

lemma trim_chars: "c \<in> set (trim x) \<Longrightarrow> c \<in> set x"
  unfolding trim_def by (auto dest!: set_dropWhileD)

lemma path_normalize_clean:
  "CHR 0x5C \<notin> set x \<Longrightarrow> CHR 0x5C \<notin> set (path_normalize x)"
  using path_normalize_chars [of "CHR 0x5C" x] by auto

lemma normalizePath_alt:
  "normalizePath p d =
     (let r0 = replaceSlashes p;
          dir = (d = Some True \<or> endsWith r0 ''/'' \<or> endsWith p ''/'');
          r1 = replaceSlashes (path_normalize (trim r0));
          r2 = (if startsWith r1 ''/'' then drop 1 r1 else r1);
          r3 = (if dir \<and> \<not> endsWith r2 ''/''
                then replaceSlashes (path_normalize (r2 @ ''/'')) else r2)
      in \<lparr>directory = dir, path = r3\<rparr>)"
  by (cases d) (auto simp: normalizePath_def Let_def)

text \<open>
  C6, as stated, fails in three ways. An absolute path that canonicalizes to the root gives the
  empty key, and the empty key normalizes to \<open>.\<close>. White space that ends up at the front of
  the key, once the leading slash has gone, is trimmed by the second normalization. White
  space after a final slash is trimmed before the path is canonicalized, so the key ends
  with a slash although the directory flag is unset; the second normalization sets it.
\<close>

theorem normalizePath_idempotent_counterexample:
  "normalizePath (path (normalizePath ''/.'' None)) None \<noteq> normalizePath ''/.'' None
   \<and> normalizePath (path (normalizePath ''/ a'' None)) None \<noteq> normalizePath ''/ a'' None
   \<and> normalizePath (path (normalizePath ''a/ '' None)) None \<noteq> normalizePath ''a/ '' None"
proof -
  have 1: "normalizePath ''/.'' None = \<lparr>directory = False, path = []\<rparr>" by code_simp
  have 2: "normalizePath [] None = \<lparr>directory = False, path = ''.''\<rparr>" by code_simp
  have 3: "normalizePath ''/ a'' None = \<lparr>directory = False, path = '' a''\<rparr>" by code_simp
  have 4: "normalizePath '' a'' None = \<lparr>directory = False, path = ''a''\<rparr>" by code_simp
  have 5: "normalizePath ''a/ '' None = \<lparr>directory = False, path = ''a/''\<rparr>" by code_simp
  have 6: "normalizePath ''a/'' None = \<lparr>directory = True, path = ''a/''\<rparr>" by code_simp
  show ?thesis unfolding 1 3 5 by (simp add: 2 4 6)
qed

text \<open>
  C6, amended. Normalization is idempotent on every result whose key is not empty, has no
  white space at either end, and ends with a slash only when the result is flagged as a
  directory: normalizing that key again, with the same directory flag, gives the same key
  and the same flag.
\<close>

theorem normalizePath_idempotent:
  assumes nonempty: "path (normalizePath p d) \<noteq> []"
      and trimmed: "trim (path (normalizePath p d)) = path (normalizePath p d)"
      and shape: "endsWith (path (normalizePath p d)) ''/'' \<longrightarrow> directory (normalizePath p d)"
  shows "normalizePath (path (normalizePath p d)) d = normalizePath p d"
proof -
  define r0 where "r0 = replaceSlashes p"
  define dir where "dir = (d = Some True \<or> endsWith r0 ''/'' \<or> endsWith p ''/'')"
  define n where "n = path_normalize (trim r0)"
  define r2 where "r2 = (if startsWith n ''/'' then drop 1 n else n)"
  define k where "k = (if dir \<and> \<not> endsWith r2 ''/''
                       then replaceSlashes (path_normalize (r2 @ ''/'')) else r2)"
  have clean_t: "CHR 0x5C \<notin> set (trim r0)"
    using replaceSlashes_clean [of p] trim_chars [of "CHR 0x5C" r0] by (auto simp: r0_def)
  have clean_n: "CHR 0x5C \<notin> set n"
    unfolding n_def by (rule path_normalize_clean [OF clean_t])
  have r1: "replaceSlashes n = n" by (rule replaceSlashes_id [OF clean_n])
  have clean_r2: "CHR 0x5C \<notin> set r2"
    using clean_n by (auto simp: r2_def dest: in_set_dropD)
  have first: "normalizePath p d = \<lparr>directory = dir, path = k\<rparr>"
    using r1 unfolding normalizePath_alt [of p d] Let_def k_def r2_def n_def dir_def r0_def
    by simp
  have r2_fix: "path_normalize r2 = r2 \<and> hd r2 \<noteq> CHR ''/''" if "r2 \<noteq> []"
  proof (cases "startsWith n ''/''")
    case True
    then have "n = CHR ''/'' # r2"
      by (cases n) (auto simp: startsWith_slash r2_def)
    then have "path_normalize (trim r0) = CHR ''/'' # r2" by (simp add: n_def)
    from path_normalize_strip [OF this that] show ?thesis .
  next
    case False
    then have eq: "r2 = n" by (simp add: r2_def)
    with that False have "hd r2 \<noteq> CHR ''/''" by (simp add: startsWith_slash)
    moreover have "path_normalize r2 = r2"
      unfolding eq n_def by (rule path_normalize_idem)
    ultimately show ?thesis by simp
  qed
  have k_facts: "replaceSlashes k = k \<and> path_normalize k = k
      \<and> (dir \<longleftrightarrow> d = Some True \<or> endsWith k ''/'')
      \<and> (if startsWith k ''/'' then k = ''/'' else True)
      \<and> (dir \<longrightarrow> endsWith k ''/'')"
  proof (cases "dir \<and> \<not> endsWith r2 ''/''")
    case True
    have clean: "CHR 0x5C \<notin> set (path_normalize (r2 @ ''/''))"
      by (rule path_normalize_clean) (use clean_r2 in simp)
    have k_eq: "k = path_normalize (r2 @ ''/'')"
      using True replaceSlashes_id [OF clean] by (simp add: k_def)
    have ends: "endsWith k ''/''" unfolding k_eq by (rule path_normalize_trailing)
    have fixd: "path_normalize k = k" unfolding k_eq by (rule path_normalize_idem)
    have sk: "replaceSlashes k = k" unfolding k_eq by (rule replaceSlashes_id [OF clean])
    have root: "k = ''/''" if "startsWith k ''/''"
    proof (cases "r2 = []")
      case True
      then show ?thesis by (simp add: k_eq path_normalize_small)
    next
      case False
      with r2_fix have "hd (r2 @ ''/'') \<noteq> CHR ''/''" by (simp add: hd_append)
      with path_normalize_relative [of "r2 @ ''/''"]
      have "hd k \<noteq> CHR ''/''" by (simp add: k_eq)
      with that show ?thesis by (simp add: startsWith_slash)
    qed
    from True ends fixd sk root show ?thesis by auto
  next
    case False
    then have k_eq: "k = r2" by (auto simp: k_def)
    from nonempty first have kne: "k \<noteq> []" by simp
    with r2_fix k_eq have fixd: "path_normalize k = k" and hd: "hd k \<noteq> CHR ''/''" by simp_all
    have sk: "replaceSlashes k = k"
      by (rule replaceSlashes_id) (use clean_r2 k_eq in simp)
    from shape first have sh: "endsWith k ''/'' \<longrightarrow> dir" by simp
    have "d = Some True \<longrightarrow> dir" by (simp add: dir_def)
    with False k_eq sh have "dir \<longleftrightarrow> d = Some True \<or> endsWith k ''/''" by auto
    moreover have "\<not> startsWith k ''/''" using hd by (simp add: startsWith_slash)
    moreover have "dir \<longrightarrow> endsWith k ''/''" using False k_eq by auto
    ultimately show ?thesis using fixd sk by simp
  qed
  from trimmed first have tk: "trim k = k" by simp
  have second: "normalizePath k d = \<lparr>directory = dir, path = k\<rparr>"
  proof (cases "startsWith k ''/''")
    case True
    with k_facts have root: "k = ''/''" by simp
    with k_facts have "dir" by (auto simp: endsWith_def)
    with k_facts have "d = Some True \<or> endsWith k ''/''" by simp
    then show ?thesis
      unfolding normalizePath_alt [of k d] Let_def
      using k_facts tk True \<open>dir\<close>
      by (simp add: root path_normalize_small replaceSlashes_def endsWith_def startsWith_def)
  next
    case False
    show ?thesis
      unfolding normalizePath_alt [of k d] Let_def
      using k_facts tk False
      by auto
  qed
  from first second show ?thesis by simp
qed

theorem normalizePath_idempotent_witness:
  "path (normalizePath ''some/dir/../file.txt'' None) = ''some/file.txt''
   \<and> normalizePath (path (normalizePath ''some/dir/../file.txt'' None)) None
       = normalizePath ''some/dir/../file.txt'' None"
proof -
  have k: "normalizePath ''some/dir/../file.txt'' None
             = \<lparr>directory = False, path = ''some/file.txt''\<rparr>"
    by code_simp
  have t: "trim ''some/file.txt'' = ''some/file.txt''" by code_simp
  have e: "\<not> endsWith ''some/file.txt'' ''/''" by code_simp
  from normalizePath_idempotent [of "''some/dir/../file.txt''" None] k t e
  show ?thesis by simp
qed

end
